theory Spec2Isabelle
  imports Complex_Main
begin

section \<open>Values of the program\<close>

text \<open>
  A candle is the six-element array \<^verbatim>\<open>[timestamp, open, high, low, close, volume]\<close> that
  \<^verbatim>\<open>fetchOHLCV\<close> delivers. The provider only ever reads element 0, the timestamp in
  milliseconds; it is an integer far below \<open>2^53\<close>, so the arithmetic of the program on it
  is exact and is modelled on \<open>int\<close>. The five price fields are passed through untouched.
\<close>

record candle =
  timestamp :: int
  price_open :: real
  price_high :: real
  price_low :: real
  price_close :: real
  volume :: real

text \<open>
  The exceptions that can travel through the provider: \<^verbatim>\<open>new Error(msg)\<close> thrown by the
  constructor, the \<^verbatim>\<open>TypeError\<close> of indexing \<^verbatim>\<open>undefined\<close>, and whatever the exchange
  client rejects with.
\<close>

datatype error = Error string | TypeError | FetchFailed

text \<open>
  A JavaScript number that may be \<^verbatim>\<open>NaN\<close>: \<open>None\<close> is \<^verbatim>\<open>NaN\<close>. Adding \<^verbatim>\<open>undefined\<close>
  (a missing table entry) to a number gives \<^verbatim>\<open>NaN\<close>.
\<close>

type_synonym jsnum = "int option"

definition js_add :: "int \<Rightarrow> int option \<Rightarrow> jsnum" where
  "js_add a b = (case b of None \<Rightarrow> None | Some d \<Rightarrow> Some (a + d))"

subsection \<open>The deque of \<^verbatim>\<open>@js-sdsl/deque\<close>\<close>

text \<open>
  The container is the third-party \<^verbatim>\<open>Deque\<close> imported on line 1 of
  \<^verbatim>\<open>ohlcv-provider.js\<close>. It is a sequence with the oldest element first. Of its
  interface the provider uses \<^verbatim>\<open>pushBack\<close>, \<^verbatim>\<open>popFront\<close>, \<^verbatim>\<open>front\<close>, \<^verbatim>\<open>back\<close> and
  \<^verbatim>\<open>size\<close>. On an empty container \<^verbatim>\<open>front()\<close> and \<^verbatim>\<open>back()\<close> return \<^verbatim>\<open>undefined\<close>
  (here \<open>None\<close>) and \<^verbatim>\<open>popFront()\<close> does nothing.
\<close>

definition pushBack :: "candle list \<Rightarrow> candle \<Rightarrow> candle list" where
  "pushBack dq c = dq @ [c]"

definition popFront :: "candle list \<Rightarrow> candle list" where
  "popFront dq = (case dq of [] \<Rightarrow> [] | c # cs \<Rightarrow> cs)"

definition front :: "candle list \<Rightarrow> candle option" where
  "front dq = (case dq of [] \<Rightarrow> None | c # cs \<Rightarrow> Some c)"

definition deque_back :: "candle list \<Rightarrow> candle option" where
  "deque_back dq = (case dq of [] \<Rightarrow> None | c # cs \<Rightarrow> Some (last dq))"

definition deque_size :: "candle list \<Rightarrow> nat" where
  "deque_size dq = length dq"

text \<open>
  The expression \<^verbatim>\<open>x[0]\<close> for \<^verbatim>\<open>x\<close> a candle or \<^verbatim>\<open>undefined\<close>: reading a property of
  \<^verbatim>\<open>undefined\<close> throws a \<^verbatim>\<open>TypeError\<close>.
\<close>

definition elem0 :: "candle option \<Rightarrow> error + int" where
  "elem0 x = (case x of None \<Rightarrow> Inl TypeError | Some c \<Rightarrow> Inr (timestamp c))"

subsection \<open>The exchange client\<close>

text \<open>
  \<^verbatim>\<open>ccxtClient.fetchOHLCV(symbol, timeframe, since, limit)\<close> is an external collaborator.
  One call is a function from the request to its outcome: the promise is rejected, or it
  resolves to an array of candles.
\<close>

record request =
  req_symbol :: string
  req_timeframe :: string
  req_since :: jsnum
  req_limit :: int

datatype fetch_result = Rejected | Resolved "candle list"

type_synonym fetch = "request \<Rightarrow> fetch_result"

section \<open>The provider\<close>

definition TIMEFRAMES_IN_MILLISECONDS :: "(string \<times> int) list" where
  "TIMEFRAMES_IN_MILLISECONDS = [(''1m'', 60000)]"

text \<open>
  The private fields of \<^verbatim>\<open>class OHLCVProvider\<close>. The client is not stored: its answers
  are inputs of the operations that call it. \<open>watcher\<close> tells whether the periodic timer
  of \<^verbatim>\<open>#startMonitoring\<close> has been installed (\<^verbatim>\<open>null\<close> before). The numeric settings
  \<^verbatim>\<open>days\<close>, \<^verbatim>\<open>updateInterval\<close> and \<^verbatim>\<open>limit\<close> are integers.
\<close>

record provider =
  symbol :: string
  timeframe :: string
  days :: int
  updateInterval :: int
  limit :: int
  deque :: "candle list"
  isReady :: bool
  watcher :: bool

definition getTimestampForDaysAgo :: "int \<Rightarrow> int \<Rightarrow> int" where
  "getTimestampForDaysAgo now d = now - d * 24 * 60 * 60 * 1000"

text \<open>
  \<^verbatim>\<open>#removeOldCandles\<close> (lines 158 to 168). \<open>now\<close> is the value of \<^verbatim>\<open>Date.now()\<close> at
  the call. A thrown exception does not undo the \<^verbatim>\<open>popFront\<close> calls made before it, so
  the result is the outcome together with the deque as it is left.
\<close>

function removeOldCandles_loop :: "int \<Rightarrow> candle list \<Rightarrow> (error + unit) \<times> candle list" where
  "removeOldCandles_loop sinceDate dq =
     (case elem0 (front dq) of
        Inl e \<Rightarrow> (Inl e, dq)
      | Inr t \<Rightarrow>
          if t < sinceDate then removeOldCandles_loop sinceDate (popFront dq)
          else (Inr (), dq))"
  by pat_completeness auto
termination
  by (relation "measure (\<lambda>(sinceDate, dq). length dq)")
    (auto simp: elem0_def front_def popFront_def split: list.splits option.splits)

definition removeOldCandles :: "provider \<Rightarrow> int \<Rightarrow> (error + unit) \<times> provider" where
  "removeOldCandles p now =
     (let sinceDate = getTimestampForDaysAgo now (days p) in
      case removeOldCandles_loop sinceDate (deque p) of
        (r, dq) \<Rightarrow> (r, p\<lparr>deque := dq\<rparr>))"

text \<open>
  The argument list \<^verbatim>\<open>(this.#symbol, this.#timeframe, since, this.#limit)\<close> of both calls
  of \<^verbatim>\<open>fetchOHLCV\<close>.
\<close>

definition fetch_args :: "provider \<Rightarrow> jsnum \<Rightarrow> request" where
  "fetch_args p since =
     \<lparr>req_symbol = symbol p, req_timeframe = timeframe p, req_since = since,
      req_limit = limit p\<rparr>"

text \<open>
  One pass through the body of the \<^verbatim>\<open>while\<close> loop of \<^verbatim>\<open>#loadInitialData\<close> (lines 62 to
  91). The result is whether the loop is left after this pass (by \<^verbatim>\<open>break\<close> or because
  \<^verbatim>\<open>allCandlesLoaded\<close> was set), the new \<^verbatim>\<open>nextCandleTime\<close> and the new deque. Every
  exception inside the \<^verbatim>\<open>try\<close> ends in the \<^verbatim>\<open>catch\<close>, which logs and breaks.
\<close>

definition loadInitialData_try ::
  "provider \<Rightarrow> fetch \<Rightarrow> jsnum \<Rightarrow> candle list \<Rightarrow> bool \<times> jsnum \<times> candle list" where
  "loadInitialData_try p fetchOHLCV nextCandleTime dq =
     (case fetchOHLCV (fetch_args p nextCandleTime) of
        Rejected \<Rightarrow> (True, nextCandleTime, dq)
      | Resolved candlesChunk \<Rightarrow>
          if length candlesChunk = 0 then (True, nextCandleTime, dq)
          else
            let dq' = foldl pushBack dq candlesChunk;
                nextCandleTime' =
                  js_add (timestamp (last candlesChunk))
                    (map_of TIMEFRAMES_IN_MILLISECONDS (timeframe p))
            in (case (elem0 (front dq'), elem0 (deque_back dq')) of
                  (Inr f, Inr b) \<Rightarrow>
                    ((f = b + days p * 24 * 60 * 60 * 1000
                        \<or> days p * 24 * 60 \<le> int (deque_size dq')),
                     nextCandleTime', dq')
                | (Inr f, Inl e) \<Rightarrow> (True, nextCandleTime', dq')
                | (Inl e, r) \<Rightarrow> (True, nextCandleTime', dq')))"

text \<open>
  The \<^verbatim>\<open>while (!allCandlesLoaded)\<close> loop. \<open>client k\<close> is the answer of the exchange to the
  \<open>k\<close>-th call of the loop. The result counts the calls that were issued.
\<close>

function loadInitialData_loop ::
  "provider \<Rightarrow> (nat \<Rightarrow> fetch) \<Rightarrow> nat \<Rightarrow> jsnum \<Rightarrow> candle list \<Rightarrow> nat \<times> candle list" where
  "loadInitialData_loop p client k nextCandleTime dq =
     (case loadInitialData_try p (client k) nextCandleTime dq of
        (leave, nextCandleTime', dq') \<Rightarrow>
          if leave then (Suc k, dq')
          else loadInitialData_loop p client (Suc k) nextCandleTime' dq')"
  by pat_completeness auto
termination
proof -
  have len: "length (foldl pushBack xs cs) = length xs + length cs" for xs cs
    by (induction cs arbitrary: xs) (simp_all add: pushBack_def)
  show ?thesis
    by (relation "measure (\<lambda>(p, client, k, nextCandleTime, dq).
                    nat (days p * 24 * 60 - int (length dq)))")
      (auto simp: loadInitialData_try_def Let_def deque_size_def len
         split: fetch_result.splits if_splits sum.splits)
qed

text \<open>
  Lines 96 and 97: after the loop the window is trimmed once and readiness is set. When
  \<^verbatim>\<open>#removeOldCandles\<close> throws, the assignment is not reached and the exception leaves
  \<^verbatim>\<open>#loadInitialData\<close>.
\<close>

definition loadInitialData_finish :: "provider \<Rightarrow> int \<Rightarrow> (error + unit) \<times> provider" where
  "loadInitialData_finish p now =
     (case removeOldCandles p now of
        (Inl e, p') \<Rightarrow> (Inl e, p')
      | (Inr u, p') \<Rightarrow> (Inr (), p'\<lparr>isReady := True\<rparr>))"

text \<open>
  \<^verbatim>\<open>#loadInitialData\<close> as a whole. \<open>now0\<close> is the clock when it starts, \<open>now1\<close> the clock
  when the loop has been left. The last component is the number of fetch calls issued.
\<close>

definition loadInitialData ::
  "provider \<Rightarrow> (nat \<Rightarrow> fetch) \<Rightarrow> int \<Rightarrow> int \<Rightarrow> (error + unit) \<times> provider \<times> nat" where
  "loadInitialData p client now0 now1 =
     (let since = getTimestampForDaysAgo now0 (days p) in
      case loadInitialData_loop p client 0 (Some since) (deque p) of
        (n, dq) \<Rightarrow>
          (case loadInitialData_finish (p\<lparr>deque := dq\<rparr>) now1 of
             (r, p') \<Rightarrow> (r, p', n)))"

text \<open>
  \<^verbatim>\<open>#startWatchingForNewOHLCV\<close> (lines 113 to 130), one tick of the live updater. The
  argument \<^verbatim>\<open>this.#deque.back()[0] + ...\<close> is evaluated inside the \<^verbatim>\<open>try\<close>, before the
  call. The result is the exception that reached the \<^verbatim>\<open>catch\<close>, if any, and the provider.
\<close>

definition startWatchingForNewOHLCV ::
  "provider \<Rightarrow> fetch \<Rightarrow> int \<Rightarrow> error option \<times> provider" where
  "startWatchingForNewOHLCV p fetchOHLCV now =
     (case elem0 (deque_back (deque p)) of
        Inl e \<Rightarrow> (Some e, p\<lparr>isReady := False\<rparr>)
      | Inr b \<Rightarrow>
          (case fetchOHLCV
                  (fetch_args p (js_add b (map_of TIMEFRAMES_IN_MILLISECONDS (timeframe p)))) of
             Rejected \<Rightarrow> (Some FetchFailed, p\<lparr>isReady := False\<rparr>)
           | Resolved candles \<Rightarrow>
               (case removeOldCandles (p\<lparr>deque := foldl pushBack (deque p) candles\<rparr>) now of
                  (Inl e, p') \<Rightarrow> (Some e, p'\<lparr>isReady := False\<rparr>)
                | (Inr u, p') \<Rightarrow> (None, p'\<lparr>isReady := True\<rparr>))))"

text \<open>The read accessors (lines 174 to 188). \<open>None\<close> is the value \<^verbatim>\<open>undefined\<close>.\<close>

definition isDataAvailable :: "provider \<Rightarrow> bool" where
  "isDataAvailable p = isReady p"

definition getLast :: "provider \<Rightarrow> error + candle option" where
  "getLast p = Inr (deque_back (deque p))"

definition getFirst :: "provider \<Rightarrow> error + candle option" where
  "getFirst p = Inr (front (deque p))"

text \<open>
  The same tick in its two halves. \<open>tick_request\<close> is what runs when the tick starts, up to
  the \<^verbatim>\<open>await\<close>: the argument \<^verbatim>\<open>this.#deque.back()[0] + ...\<close> is evaluated and the call is
  issued. \<open>tick_settle\<close> is what runs when the promise settles: lines 122 to 125 on a
  resolved fetch, the \<^verbatim>\<open>catch\<close> block otherwise. The second half works on the provider as
  it is when the promise settles.
\<close>

definition tick_request :: "provider \<Rightarrow> error + request" where
  "tick_request p =
     (case elem0 (deque_back (deque p)) of
        Inl e \<Rightarrow> Inl e
      | Inr b \<Rightarrow>
          Inr (fetch_args p (js_add b (map_of TIMEFRAMES_IN_MILLISECONDS (timeframe p)))))"

definition tick_settle :: "provider \<Rightarrow> fetch_result \<Rightarrow> int \<Rightarrow> error option \<times> provider" where
  "tick_settle p r now =
     (case r of
        Rejected \<Rightarrow> (Some FetchFailed, p\<lparr>isReady := False\<rparr>)
      | Resolved candles \<Rightarrow>
          (case removeOldCandles (p\<lparr>deque := foldl pushBack (deque p) candles\<rparr>) now of
             (Inl e, p') \<Rightarrow> (Some e, p'\<lparr>isReady := False\<rparr>)
           | (Inr u, p') \<Rightarrow> (None, p'\<lparr>isReady := True\<rparr>)))"

subsection \<open>Construction and the background activity\<close>

text \<open>
  What the asynchronous \<^verbatim>\<open>#start\<close> is doing: waiting for a fetch of the backfill loop
  (with the \<^verbatim>\<open>nextCandleTime\<close> it asked for), polling \<^verbatim>\<open>#isReady\<close> once a second after
  \<^verbatim>\<open>#loadDataInBackground\<close> has resolved, done after it has installed the watcher, or
  dead because \<^verbatim>\<open>#loadDataInBackground\<close> rejected and the \<^verbatim>\<open>await\<close> threw.
\<close>

datatype activity = Loading jsnum | Polling | Monitoring | StartRejected error

text \<open>
  The provider together with its background activity. \<open>pending\<close> holds the requests of the
  watcher ticks that are waiting for their fetch, oldest first: the callback of
  \<^verbatim>\<open>setInterval\<close> is asynchronous and the timer does not wait for it, so a tick can start
  while earlier ticks are still in flight.
\<close>

record system =
  obj :: provider
  act :: activity
  pending :: "request list"

text \<open>
  The constructor (lines 32 to 54), with the default arguments already filled in.
  \<open>now\<close> is the clock at construction: \<^verbatim>\<open>#start()\<close> runs \<^verbatim>\<open>#loadInitialData\<close> up to its
  first \<^verbatim>\<open>await\<close> before the constructor returns.
\<close>

definition constructor ::
  "string \<Rightarrow> string \<Rightarrow> int \<Rightarrow> int \<Rightarrow> int \<Rightarrow> int \<Rightarrow> error + system" where
  "constructor symbol0 timeframe0 days0 updateInterval0 limit0 now =
     (if timeframe0 \<notin> set (map fst TIMEFRAMES_IN_MILLISECONDS)
      then Inl (Error ''Incorrect timeframe'')
      else Inr \<lparr>obj = \<lparr>symbol = symbol0, timeframe = timeframe0, days = days0,
                       updateInterval = updateInterval0, limit = limit0,
                       deque = [], isReady = False, watcher = False\<rparr>,
                act = Loading (Some (getTimestampForDaysAgo now days0)),
                pending = []\<rparr>)"

text \<open>
  What follows the loop of the backfill: lines 96 and 97 run; when they return,
  \<^verbatim>\<open>#loadDataInBackground\<close> resolves and \<^verbatim>\<open>#start\<close> goes on to poll; when
  \<^verbatim>\<open>#removeOldCandles\<close> throws, \<^verbatim>\<open>#loadDataInBackground\<close> rejects and \<^verbatim>\<open>#start\<close> ends
  at its \<^verbatim>\<open>await\<close>.
\<close>

definition after_loop :: "provider \<Rightarrow> int \<Rightarrow> provider \<times> activity" where
  "after_loop p now =
     (case loadInitialData_finish p now of
        (Inl e, p') \<Rightarrow> (p', StartRejected e)
      | (Inr u, p') \<Rightarrow> (p', Polling))"

text \<open>
  The callback of the timer of \<^verbatim>\<open>#startMonitoring\<close> (lines 151 to 155), run from its start
  to its end with nothing in between: the tick runs only while the provider is ready.
\<close>

definition watcher_callback :: "provider \<Rightarrow> fetch \<Rightarrow> int \<Rightarrow> provider" where
  "watcher_callback p fetchOHLCV now =
     (if isReady p then snd (startWatchingForNewOHLCV p fetchOHLCV now) else p)"

text \<open>
  The events that drive the provider after construction.
  \<^item> \<open>BackfillFetch\<close>: the pending fetch of the backfill loop settles. The loop awaits each
    fetch, so there is one at a time.
  \<^item> \<open>PollTimer\<close>: the one-second timer of \<^verbatim>\<open>#start\<close> fires.
  \<^item> \<open>WatcherTimer\<close>: the watcher timer fires. The callback checks \<^verbatim>\<open>#isReady\<close>, evaluates
    the argument and issues the fetch; the tick is then in flight.
  \<^item> \<open>TickSettled i\<close>: the fetch of the tick at position \<open>i\<close> of \<open>pending\<close> settles and the
    rest of that tick runs. Ticks may settle in any order.

  An event carries the answer of the exchange and the clock where they are read. An event
  that cannot happen in the current state leaves the system as it is.
\<close>

datatype event = BackfillFetch fetch int | PollTimer | WatcherTimer | TickSettled nat fetch int

fun step :: "system \<Rightarrow> event \<Rightarrow> system" where
  "step s (BackfillFetch fetchOHLCV now) =
     (case act s of
        Loading nextCandleTime \<Rightarrow>
          (case loadInitialData_try (obj s) fetchOHLCV nextCandleTime (deque (obj s)) of
             (leave, nextCandleTime', dq') \<Rightarrow>
               if leave then
                 (case after_loop ((obj s)\<lparr>deque := dq'\<rparr>) now of
                    (p', a) \<Rightarrow> s\<lparr>obj := p', act := a\<rparr>)
               else s\<lparr>obj := (obj s)\<lparr>deque := dq'\<rparr>, act := Loading nextCandleTime'\<rparr>)
      | Polling \<Rightarrow> s
      | Monitoring \<Rightarrow> s
      | StartRejected e \<Rightarrow> s)"
| "step s PollTimer =
     (case act s of
        Polling \<Rightarrow>
          if isReady (obj s) then s\<lparr>obj := (obj s)\<lparr>watcher := True\<rparr>, act := Monitoring\<rparr> else s
      | Loading n \<Rightarrow> s
      | Monitoring \<Rightarrow> s
      | StartRejected e \<Rightarrow> s)"
| "step s WatcherTimer =
     (case act s of
        Monitoring \<Rightarrow>
          if isReady (obj s) then
            (case tick_request (obj s) of
               Inl e \<Rightarrow> s\<lparr>obj := (obj s)\<lparr>isReady := False\<rparr>\<rparr>
             | Inr req \<Rightarrow> s\<lparr>pending := pending s @ [req]\<rparr>)
          else s
      | Loading n \<Rightarrow> s
      | Polling \<Rightarrow> s
      | StartRejected e \<Rightarrow> s)"
| "step s (TickSettled i fetchOHLCV now) =
     (if i < length (pending s) then
        s\<lparr>obj := snd (tick_settle (obj s) (fetchOHLCV (pending s ! i)) now),
          pending := take i (pending s) @ drop (Suc i) (pending s)\<rparr>
      else s)"

fun run :: "system \<Rightarrow> event list \<Rightarrow> system" where
  "run s [] = s"
| "run s (e # es) = run (step s e) es"

subsection \<open>A well-behaved exchange, and ticks that do not overlap\<close>

text \<open>
  The contract the provider expects of \<^verbatim>\<open>fetchOHLCV\<close>: the candles of an answer are in
  ascending timestamp order and none is older than the requested \<^verbatim>\<open>since\<close>. \<open>fetch_ok\<close>
  says that the answer carried by an event keeps the contract for the request it answers;
  \<open>fetches_ok\<close> says so for every event of a run.

  \<open>no_overlap\<close> says of a run that the watcher timer never fires while a tick is in flight.
\<close>

definition ordered_reply :: "jsnum \<Rightarrow> fetch_result \<Rightarrow> bool" where
  "ordered_reply since r =
     (case r of
        Rejected \<Rightarrow> True
      | Resolved cs \<Rightarrow>
          sorted (map timestamp cs)
          \<and> list_all (\<lambda>c. case since of None \<Rightarrow> False | Some t \<Rightarrow> t \<le> timestamp c) cs)"





subsection \<open>Invariants of the running provider\<close>



definition ready_inv :: "system \<Rightarrow> bool" where
  "ready_inv s =
     (case act s of
        Loading n \<Rightarrow> \<not> isReady (obj s) \<and> pending s = []
      | Polling \<Rightarrow> isReady (obj s) \<and> pending s = []
      | Monitoring \<Rightarrow> True
      | StartRejected e \<Rightarrow> \<not> isReady (obj s) \<and> pending s = [])"

subsection \<open>Concrete data for the examples\<close>

text \<open>
  A candle with the given timestamp, and the provider the constructor builds for
  \<^verbatim>\<open>new OHLCVProvider("BTC/USDT", client, "1m", d)\<close>.
\<close>

definition candle_at :: "int \<Rightarrow> candle" where
  "candle_at t = \<lparr>timestamp = t, price_open = 0, price_high = 0, price_low = 0,
                  price_close = 0, volume = 0\<rparr>"

definition fresh :: "int \<Rightarrow> provider" where
  "fresh d = \<lparr>symbol = ''BTC/USDT'', timeframe = ''1m'', days = d, updateInterval = 10000,
              limit = 1000, deque = [], isReady = False, watcher = False\<rparr>"

section \<open>Basic facts about the deque and the eviction loop\<close>

declare removeOldCandles_loop.simps [simp del]
declare loadInitialData_loop.simps [simp del]

lemma foldl_pushBack: "foldl pushBack dq cs = dq @ cs"
  by (induction cs arbitrary: dq) (simp_all add: pushBack_def)

lemma removeOldCandles_loop_Nil: "removeOldCandles_loop sinceDate [] = (Inl TypeError, [])"
  by (simp add: removeOldCandles_loop.simps elem0_def front_def)

lemma removeOldCandles_loop_Cons:
  "removeOldCandles_loop sinceDate (c # cs) =
     (if timestamp c < sinceDate then removeOldCandles_loop sinceDate cs
      else (Inr (), c # cs))"
  by (subst removeOldCandles_loop.simps) (simp add: elem0_def front_def popFront_def)

lemma removeOldCandles_loop_dropWhile:
  "removeOldCandles_loop sinceDate dq =
     (if dropWhile (\<lambda>c. timestamp c < sinceDate) dq = [] then Inl TypeError else Inr (),
      dropWhile (\<lambda>c. timestamp c < sinceDate) dq)"
  by (induction dq) (simp_all add: removeOldCandles_loop_Nil removeOldCandles_loop_Cons)

lemma dropWhile_old_sorted:
  assumes "sorted (map timestamp dq)"
  shows "\<forall>c \<in> set (dropWhile (\<lambda>c. timestamp c < t) dq). t \<le> timestamp c"
  using assms
proof (induction dq)
  case Nil
  then show ?case by simp
next
  case (Cons a dq)
  then show ?case by (auto simp: not_less)
qed

lemma takeWhile_old: "\<forall>c \<in> set (takeWhile (\<lambda>c. timestamp c < t) dq). timestamp c < t"
  by (auto dest: set_takeWhileD)

lemma dropWhile_keeps_last:
  assumes "dq \<noteq> []" and "\<not> P (last dq)"
  shows "dropWhile P dq \<noteq> [] \<and> last (dropWhile P dq) = last dq"
  using assms by (induction dq) (auto split: if_splits)

lemma removeOldCandles_deque:
  "deque (snd (removeOldCandles p now)) =
     dropWhile (\<lambda>c. timestamp c < getTimestampForDaysAgo now (days p)) (deque p)"
  by (simp add: removeOldCandles_def Let_def removeOldCandles_loop_dropWhile)

lemma constructor_fresh:
  "constructor ''BTC/USDT'' ''1m'' d 10000 1000 now =
     Inr \<lparr>obj = fresh d, act = Loading (Some (now - d * 24 * 60 * 60 * 1000)), pending = []\<rparr>"
  by (simp add: constructor_def fresh_def TIMEFRAMES_IN_MILLISECONDS_def
        getTimestampForDaysAgo_def)

section \<open>Facts about the backfill pass, the tick and the invariants\<close>

lemma removeOldCandles_snd:
  "snd (removeOldCandles p now) =
     p\<lparr>deque := dropWhile (\<lambda>c. timestamp c < getTimestampForDaysAgo now (days p)) (deque p)\<rparr>"
  by (simp add: removeOldCandles_def Let_def removeOldCandles_loop_dropWhile)

lemma loadInitialData_finish_eq:
  "loadInitialData_finish p now =
     (if dropWhile (\<lambda>c. timestamp c < getTimestampForDaysAgo now (days p)) (deque p) = []
      then (Inl TypeError, p\<lparr>deque := []\<rparr>)
      else (Inr (),
            p\<lparr>deque := dropWhile (\<lambda>c. timestamp c < getTimestampForDaysAgo now (days p))
                         (deque p),
              isReady := True\<rparr>))"
  by (simp add: loadInitialData_finish_def removeOldCandles_def Let_def
        removeOldCandles_loop_dropWhile)

lemma elem0_front: "dq \<noteq> [] \<Longrightarrow> elem0 (front dq) = Inr (timestamp (hd dq))"
  by (cases dq) (simp_all add: elem0_def front_def)

lemma elem0_back: "dq \<noteq> [] \<Longrightarrow> elem0 (deque_back dq) = Inr (timestamp (last dq))"
  by (cases dq) (simp_all add: elem0_def deque_back_def)

lemma try_cases:
  "loadInitialData_try p f n dq =
     (case f (fetch_args p n) of
        Rejected \<Rightarrow> (True, n, dq)
      | Resolved cs \<Rightarrow>
          if cs = [] then (True, n, dq)
          else (timestamp (hd (dq @ cs)) = timestamp (last cs) + days p * 24 * 60 * 60 * 1000
                  \<or> days p * 24 * 60 \<le> int (length dq + length cs),
                js_add (timestamp (last cs)) (map_of TIMEFRAMES_IN_MILLISECONDS (timeframe p)),
                dq @ cs))"
proof (cases "f (fetch_args p n)")
  case Rejected
  then show ?thesis by (simp add: loadInitialData_try_def)
next
  case (Resolved cs)
  show ?thesis
  proof (cases "cs = []")
    case True
    with Resolved show ?thesis by (simp add: loadInitialData_try_def)
  next
    case False
    then have ne: "dq @ cs \<noteq> []" by simp
    from False have "last (dq @ cs) = last cs" by simp
    with Resolved False elem0_front [OF ne] elem0_back [OF ne] show ?thesis
      by (simp add: loadInitialData_try_def foldl_pushBack Let_def deque_size_def)
  qed
qed

text \<open>A tick is its two halves, one after the other.\<close>

lemma tick_halves:
  "startWatchingForNewOHLCV p f now =
     (case tick_request p of
        Inl e \<Rightarrow> (Some e, p\<lparr>isReady := False\<rparr>)
      | Inr req \<Rightarrow> tick_settle p (f req) now)"
  by (simp add: startWatchingForNewOHLCV_def tick_request_def tick_settle_def
      split: sum.splits)

lemma tick_request_eq:
  "tick_request p =
     (case deque_back (deque p) of
        None \<Rightarrow> Inl TypeError
      | Some b \<Rightarrow>
          Inr (fetch_args p (js_add (timestamp b)
                 (map_of TIMEFRAMES_IN_MILLISECONDS (timeframe p)))))"
  by (simp add: tick_request_def elem0_def split: option.splits)

lemma tick_settle_snd:
  "snd (tick_settle p r now) =
     (case r of
        Rejected \<Rightarrow> p\<lparr>isReady := False\<rparr>
      | Resolved cs \<Rightarrow>
          p\<lparr>deque := dropWhile (\<lambda>c. timestamp c < getTimestampForDaysAgo now (days p))
                       (deque p @ cs),
            isReady := dropWhile (\<lambda>c. timestamp c < getTimestampForDaysAgo now (days p))
                         (deque p @ cs) \<noteq> []\<rparr>)"
  by (simp add: tick_settle_def removeOldCandles_def Let_def
        removeOldCandles_loop_dropWhile foldl_pushBack
      split: fetch_result.splits)

lemma tick_settle_fst:
  "fst (tick_settle p r now) = None \<longleftrightarrow> isReady (snd (tick_settle p r now))"
  by (simp add: tick_settle_def split: sum.splits fetch_result.splits prod.splits)

text \<open>
  When the tick that has just started settles before anything else happens, the two events
  together do what the callback does when run in one piece.
\<close>

lemma tick_in_one_piece:
  assumes "act s = Monitoring"
  shows "obj (step (step s WatcherTimer) (TickSettled (length (pending s)) f now))
           = watcher_callback (obj s) f now"
proof (cases "isReady (obj s)")
  case False
  with assms show ?thesis by (simp add: watcher_callback_def)
next
  case True
  show ?thesis
  proof (cases "tick_request (obj s)")
    case (Inl e)
    with assms True show ?thesis by (simp add: watcher_callback_def tick_halves)
  next
    case (Inr req)
    with assms True show ?thesis by (simp add: watcher_callback_def tick_halves nth_append)
  qed
qed

text \<open>
  The loop of \<^verbatim>\<open>#loadInitialData\<close> and the event-driven description agree: the answers
  \<open>client k\<close>, \<open>client (k + 1)\<close>, \<dots> fed as events produce the state the function computes.
\<close>

lemma try_deque_irrelevant:
  "loadInitialData_try (p\<lparr>deque := x\<rparr>) f n dq = loadInitialData_try p f n dq"
  by (simp add: try_cases fetch_args_def split: fetch_result.splits)

lemma loop_count: "loadInitialData_loop p client k n dq = (k', dq') \<Longrightarrow> k < k'"
proof (induction p client k n dq rule: loadInitialData_loop.induct)
  case (1 p client k nextCandleTime dq)
  obtain leave n1 dq1 where t: "loadInitialData_try p (client k) nextCandleTime dq = (leave, n1, dq1)"
    by (cases "loadInitialData_try p (client k) nextCandleTime dq") auto
  show ?case
  proof (cases leave)
    case True
    with t "1.prems" show ?thesis by (subst (asm) loadInitialData_loop.simps) simp
  next
    case False
    with t "1.prems" have "loadInitialData_loop p client (Suc k) n1 dq1 = (k', dq')"
      by (subst (asm) loadInitialData_loop.simps) simp
    then have "Suc k < k'" by (rule "1.IH" [OF t [symmetric] refl False])
    then show ?thesis by simp
  qed
qed

lemma loop_as_run:
  "loadInitialData_loop p client k n dq = (k', dq') \<Longrightarrow>
   run \<lparr>obj = p\<lparr>deque := dq\<rparr>, act = Loading n, pending = []\<rparr>
       (map (\<lambda>i. BackfillFetch (client i) now) [k..<k'])
     = \<lparr>obj = fst (after_loop (p\<lparr>deque := dq'\<rparr>) now),
        act = snd (after_loop (p\<lparr>deque := dq'\<rparr>) now), pending = []\<rparr>"
proof (induction p client k n dq rule: loadInitialData_loop.induct)
  case (1 p client k nextCandleTime dq)
  obtain leave n1 dq1 where t: "loadInitialData_try p (client k) nextCandleTime dq = (leave, n1, dq1)"
    by (cases "loadInitialData_try p (client k) nextCandleTime dq") auto
  from "1.prems" have lt: "k < k'" by (rule loop_count)
  then have upt: "[k..<k'] = k # [Suc k..<k']" by (simp add: upt_conv_Cons)
  show ?case
  proof (cases leave)
    case True
    with t "1.prems" have "k' = Suc k" "dq' = dq1"
      by (subst (asm) loadInitialData_loop.simps; simp)+
    with t True show ?thesis
      by (simp add: try_deque_irrelevant split: prod.splits)
  next
    case False
    with t "1.prems" have rest: "loadInitialData_loop p client (Suc k) n1 dq1 = (k', dq')"
      by (subst (asm) loadInitialData_loop.simps) simp
    have "step \<lparr>obj = p\<lparr>deque := dq\<rparr>, act = Loading nextCandleTime, pending = []\<rparr>
            (BackfillFetch (client k) now)
          = \<lparr>obj = p\<lparr>deque := dq1\<rparr>, act = Loading n1, pending = []\<rparr>"
      using t False by (simp add: try_deque_irrelevant)
    with "1.IH" [OF t [symmetric] refl False rest] upt show ?thesis
      by simp
  qed
qed

lemma loadInitialData_as_run:
  assumes "loadInitialData p client now0 now1 = (r, p', k)"
  shows "run \<lparr>obj = p, act = Loading (Some (getTimestampForDaysAgo now0 (days p))), pending = []\<rparr>
             (map (\<lambda>i. BackfillFetch (client i) now1) [0..<k])
           = \<lparr>obj = p', act = (case r of Inl e \<Rightarrow> StartRejected e | Inr u \<Rightarrow> Polling),
              pending = []\<rparr>"
proof -
  obtain dq where loop:
    "loadInitialData_loop p client 0 (Some (getTimestampForDaysAgo now0 (days p))) (deque p) = (k, dq)"
    and fin: "loadInitialData_finish (p\<lparr>deque := dq\<rparr>) now1 = (r, p')"
    using assms by (auto simp: loadInitialData_def Let_def split: prod.splits)
  have "p\<lparr>deque := deque p\<rparr> = p" by simp
  with loop_as_run [OF loop, of now1] fin show ?thesis
    by (cases r) (simp_all add: after_loop_def)
qed

lemma try_stays:
  assumes "loadInitialData_try p f n dq = (False, n', dq')"
  shows "length dq < length dq' \<and> int (length dq') < days p * 24 * 60"
  using assms by (auto simp: try_cases split: fetch_result.splits if_splits)

lemma backfill_fetch_bound:
  assumes "loadInitialData_loop p client k n dq = (k', dq')"
  shows "int k' - int k \<le> max 1 (days p * 24 * 60 - int (length dq))"
  using assms
proof (induction p client k n dq rule: loadInitialData_loop.induct)
  case (1 p client k nextCandleTime dq)
  obtain leave n1 dq1 where t: "loadInitialData_try p (client k) nextCandleTime dq = (leave, n1, dq1)"
    by (cases "loadInitialData_try p (client k) nextCandleTime dq") auto
  show ?case
  proof (cases leave)
    case True
    with t "1.prems" have "k' = Suc k"
      by (subst (asm) loadInitialData_loop.simps) simp
    then show ?thesis by simp
  next
    case False
    with t "1.prems" have rest: "loadInitialData_loop p client (Suc k) n1 dq1 = (k', dq')"
      by (subst (asm) loadInitialData_loop.simps) simp
    then have ih: "int k' - int (Suc k) \<le> max 1 (days p * 24 * 60 - int (length dq1))"
      by (rule "1.IH" [OF t [symmetric] refl False])
    from t False have "length dq < length dq1 \<and> int (length dq1) < days p * 24 * 60"
      by (intro try_stays) simp
    with ih show ?thesis by simp
  qed
qed

lemma backfill_pass_leaves_iff:
  assumes "f (fetch_args p n) = Resolved cs"
  shows "fst (loadInitialData_try p f n dq) \<longleftrightarrow>
           cs = []
           \<or> timestamp (hd (dq @ cs)) = timestamp (last (dq @ cs)) + days p * 24 * 60 * 60 * 1000
           \<or> days p * 24 * 60 \<le> int (length (dq @ cs))"
  using assms by (simp add: try_cases)

lemma loadInitialData_becomes_ready:
  assumes "loadInitialData_loop p client 0 (Some (getTimestampForDaysAgo now0 (days p))) (deque p)
             = (k, dq)"
    and "list_ex (\<lambda>c. getTimestampForDaysAgo now1 (days p) \<le> timestamp c) dq"
  shows "loadInitialData p client now0 now1 =
           (Inr (),
            p\<lparr>deque := dropWhile (\<lambda>c. timestamp c < getTimestampForDaysAgo now1 (days p)) dq,
              isReady := True\<rparr>,
            k)"
proof -
  from assms(2) have "dropWhile (\<lambda>c. timestamp c < getTimestampForDaysAgo now1 (days p)) dq \<noteq> []"
    by (fastforce simp: list_ex_iff dropWhile_eq_Nil_conv not_less)
  with assms(1) show ?thesis
    by (simp add: loadInitialData_def Let_def loadInitialData_finish_eq)
qed



lemma tick_snd:
  "snd (startWatchingForNewOHLCV p f now) =
     (case deque_back (deque p) of
        None \<Rightarrow> p\<lparr>isReady := False\<rparr>
      | Some b \<Rightarrow>
          (case f (fetch_args p (js_add (timestamp b)
                     (map_of TIMEFRAMES_IN_MILLISECONDS (timeframe p)))) of
             Rejected \<Rightarrow> p\<lparr>isReady := False\<rparr>
           | Resolved cs \<Rightarrow>
               p\<lparr>deque := dropWhile (\<lambda>c. timestamp c < getTimestampForDaysAgo now (days p))
                            (deque p @ cs),
                 isReady := dropWhile (\<lambda>c. timestamp c < getTimestampForDaysAgo now (days p))
                              (deque p @ cs) \<noteq> []\<rparr>))"
  by (simp add: startWatchingForNewOHLCV_def elem0_def removeOldCandles_def Let_def
        removeOldCandles_loop_dropWhile foldl_pushBack
      split: option.splits fetch_result.splits)












lemmas eval_simps =
  try_cases after_loop_def loadInitialData_finish_eq tick_request_eq tick_settle_snd
  fetch_args_def ordered_reply_def js_add_def TIMEFRAMES_IN_MILLISECONDS_def
  getTimestampForDaysAgo_def fresh_def candle_at_def deque_back_def

lemma ready_inv_step: "ready_inv s \<Longrightarrow> ready_inv (step s e)"
proof (cases e)
  case (BackfillFetch f now)
  assume "ready_inv s"
  with BackfillFetch show ?thesis
    by (cases "act s")
       (auto simp: ready_inv_def after_loop_def loadInitialData_finish_eq split: prod.splits)
next
  case PollTimer
  assume "ready_inv s"
  with PollTimer show ?thesis by (cases "act s") (simp_all add: ready_inv_def)
next
  case WatcherTimer
  assume "ready_inv s"
  with WatcherTimer show ?thesis
    by (cases "act s") (simp_all add: ready_inv_def split: sum.splits)
next
  case (TickSettled i f now)
  assume "ready_inv s"
  with TickSettled show ?thesis by (cases "act s") (simp_all add: ready_inv_def)
qed

lemma ready_inv_run: "ready_inv s \<Longrightarrow> ready_inv (run s evs)"
  by (induction evs arbitrary: s) (simp_all add: ready_inv_step)

lemma ready_inv_constructed: "constructor sy tf d u l now = Inr s \<Longrightarrow> ready_inv s"
  by (auto simp: constructor_def ready_inv_def split: if_splits)

lemma ready_lost_only_by_tick:
  assumes "ready_inv s" and "isReady (obj s)" and "\<not> isReady (obj (step s e))"
  shows "(e = WatcherTimer \<and> act s = Monitoring \<and> (\<exists>err. tick_request (obj s) = Inl err))
       \<or> (\<exists>i f t err. e = TickSettled i f t \<and> i < length (pending s)
             \<and> fst (tick_settle (obj s) (f (pending s ! i)) t) = Some err)"
proof (cases e)
  case (BackfillFetch f now)
  with assms show ?thesis
    by (cases "act s") (simp_all add: ready_inv_def)
next
  case PollTimer
  with assms show ?thesis by (cases "act s") (simp_all add: ready_inv_def)
next
  case WatcherTimer
  with assms have m: "act s = Monitoring" by (cases "act s") simp_all
  with WatcherTimer assms have "\<exists>err. tick_request (obj s) = Inl err"
    by (cases "tick_request (obj s)") simp_all
  with WatcherTimer m show ?thesis by simp
next
  case (TickSettled i f now)
  with assms have i: "i < length (pending s)" by (cases "i < length (pending s)") simp_all
  with TickSettled assms have "\<not> isReady (snd (tick_settle (obj s) (f (pending s ! i)) now))"
    by simp
  then have "fst (tick_settle (obj s) (f (pending s ! i)) now) \<noteq> None"
    by (simp add: tick_settle_fst)
  with TickSettled i show ?thesis by auto
qed

lemma tick_fst:
  "fst (startWatchingForNewOHLCV p f now) = None \<longleftrightarrow>
     isReady (snd (startWatchingForNewOHLCV p f now))"
  by (simp add: startWatchingForNewOHLCV_def split: sum.splits fetch_result.splits prod.splits)

lemma stuck_step:
  "act s = Monitoring \<Longrightarrow> \<not> isReady (obj s) \<Longrightarrow> pending s = [] \<Longrightarrow> step s e = s"
  by (cases e) simp_all

lemma rejected_start_absorbing:
  "act s = StartRejected e \<Longrightarrow> pending s = [] \<Longrightarrow> run s evs = s"
proof (induction evs)
  case Nil
  show ?case by simp
next
  case (Cons a evs)
  then have "step s a = s" by (cases a) simp_all
  with Cons show ?case by simp
qed


section \<open>The interval registry and construction\<close>

text \<open>
  Claim C10. The registry has the single entry \<open>''1m''\<close> with 60000 milliseconds. For every
  timeframe other than \<open>''1m''\<close> the constructor throws \<^verbatim>\<open>Error("Incorrect timeframe")\<close>:
  the result is the exception alone, no provider exists and no activity was started. For
  \<open>''1m''\<close> construction succeeds, with an empty deque, not ready, the backfill waiting for
  its first fetch, and the interval found in the registry is 60000.
\<close>

theorem constructor_timeframe:
  "TIMEFRAMES_IN_MILLISECONDS = [(''1m'', 60000)]
   \<and> (tf \<noteq> ''1m'' \<longrightarrow>
        constructor sy tf d u l now = Inl (Error ''Incorrect timeframe''))
   \<and> (\<exists>s. constructor sy ''1m'' d u l now = Inr s
          \<and> deque (obj s) = [] \<and> \<not> isReady (obj s) \<and> \<not> watcher (obj s)
          \<and> act s = Loading (Some (now - d * 24 * 60 * 60 * 1000))
          \<and> map_of TIMEFRAMES_IN_MILLISECONDS (timeframe (obj s)) = Some 60000)"
  by (simp add: constructor_def TIMEFRAMES_IN_MILLISECONDS_def getTimestampForDaysAgo_def)

theorem constructor_timeframe_witness:
  "constructor ''BTC/USDT'' ''5m'' 7 10000 1000 0 = Inl (Error ''Incorrect timeframe'')
   \<and> constructor ''BTC/USDT'' ''1h'' 7 10000 1000 0 = Inl (Error ''Incorrect timeframe'')
   \<and> constructor ''BTC/USDT'' ''1d'' 7 10000 1000 0 = Inl (Error ''Incorrect timeframe'')"
  using constructor_timeframe [of "''5m''" "''BTC/USDT''" 7 10000 1000 0]
    constructor_timeframe [of "''1h''" "''BTC/USDT''" 7 10000 1000 0]
    constructor_timeframe [of "''1d''" "''BTC/USDT''" 7 10000 1000 0]
  by simp

section \<open>The window maintainer\<close>

text \<open>
  Claim C3 says that \<^verbatim>\<open>#removeOldCandles\<close> on an empty buffer returns normally and changes
  nothing. The code has no guard for the empty deque: \<^verbatim>\<open>front()\<close> is \<^verbatim>\<open>undefined\<close>, and
  reading its element 0 throws. On every provider whose deque is empty the call ends with
  a \<^verbatim>\<open>TypeError\<close> (the deque and the readiness flag are left as they were).
\<close>

theorem removeOldCandles_empty_faults:
  "removeOldCandles (p\<lparr>deque := []\<rparr>) now = (Inl TypeError, p\<lparr>deque := []\<rparr>)"
  by (simp add: removeOldCandles_def removeOldCandles_loop_Nil)

text \<open>
  Claim C7. For every buffer in ascending timestamp order, a run of the window maintainer
  at clock \<open>T\<close> leaves no candle older than \<open>T - days * 86400000\<close> in the buffer, removes
  only a prefix of the buffer (it only pops at the front), and every removed candle is
  older than \<open>T - days * 86400000\<close>, so no candle inside the window is removed. In
  particular a back candle inside the window stays the back candle, and the call then
  returns normally.
\<close>

theorem removeOldCandles_window:
  assumes "sorted (map timestamp (deque p))"
  shows "\<exists>old kept.
           deque p = old @ kept
         \<and> snd (removeOldCandles p T) = p\<lparr>deque := kept\<rparr>
         \<and> (\<forall>c \<in> set kept. T - days p * 24 * 60 * 60 * 1000 \<le> timestamp c)
         \<and> (\<forall>c \<in> set old. timestamp c < T - days p * 24 * 60 * 60 * 1000)
         \<and> (deque p \<noteq> [] \<and> T - days p * 24 * 60 * 60 * 1000 \<le> timestamp (last (deque p))
              \<longrightarrow> fst (removeOldCandles p T) = Inr () \<and> kept \<noteq> []
                  \<and> last kept = last (deque p))"
proof -
  define t where "t = T - days p * 24 * 60 * 60 * 1000"
  define old where "old = takeWhile (\<lambda>c. timestamp c < t) (deque p)"
  define kept where "kept = dropWhile (\<lambda>c. timestamp c < t) (deque p)"
  have split: "deque p = old @ kept"
    by (simp add: old_def kept_def)
  have res: "removeOldCandles p T =
               (if kept = [] then Inl TypeError else Inr (), p\<lparr>deque := kept\<rparr>)"
    by (simp add: removeOldCandles_def getTimestampForDaysAgo_def Let_def
          removeOldCandles_loop_dropWhile kept_def t_def)
  have in_window: "\<forall>c \<in> set kept. t \<le> timestamp c"
    unfolding kept_def using assms by (rule dropWhile_old_sorted)
  have stale: "\<forall>c \<in> set old. timestamp c < t"
    unfolding old_def by (rule takeWhile_old)
  have newest: "kept \<noteq> [] \<and> last kept = last (deque p)"
    if "deque p \<noteq> []" and "t \<le> timestamp (last (deque p))"
    unfolding kept_def using that by (intro dropWhile_keeps_last) simp_all
  have returns: "fst (removeOldCandles p T) = Inr ()" if "kept \<noteq> []"
    using that by (simp add: res)
  have left: "snd (removeOldCandles p T) = p\<lparr>deque := kept\<rparr>"
    by (simp add: res)
  show ?thesis
  proof (intro exI conjI impI)
    show "deque p = old @ kept" by (fact split)
    show "snd (removeOldCandles p T) = p\<lparr>deque := kept\<rparr>" by (fact left)
    show "\<forall>c \<in> set kept. T - days p * 24 * 60 * 60 * 1000 \<le> timestamp c"
      using in_window [unfolded t_def] .
    show "\<forall>c \<in> set old. timestamp c < T - days p * 24 * 60 * 60 * 1000"
      using stale [unfolded t_def] .
  next
    assume a: "deque p \<noteq> [] \<and> T - days p * 24 * 60 * 60 * 1000 \<le> timestamp (last (deque p))"
    with newest [unfolded t_def] have k: "kept \<noteq> [] \<and> last kept = last (deque p)"
      by blast
    then show "fst (removeOldCandles p T) = Inr ()" using returns by blast
    from k show "kept \<noteq> []" by blast
    from k show "last kept = last (deque p)" by blast
  qed
qed

theorem removeOldCandles_window_witness:
  "sorted (map timestamp (deque ((fresh 1)\<lparr>deque := [candle_at 0, candle_at 100000000, candle_at 172800000]\<rparr>)))
   \<and> removeOldCandles
         ((fresh 1)\<lparr>deque := [candle_at 0, candle_at 100000000, candle_at 172800000]\<rparr>)
         172800000
       = (Inr (), (fresh 1)\<lparr>deque := [candle_at 100000000, candle_at 172800000]\<rparr>)"
  using removeOldCandles_window
    [of "(fresh 1)\<lparr>deque := [candle_at 0, candle_at 100000000, candle_at 172800000]\<rparr>"
        172800000]
  by (simp add: removeOldCandles_def getTimestampForDaysAgo_def removeOldCandles_loop_Cons
        fresh_def candle_at_def)

section \<open>The live updater\<close>

text \<open>
  Claim C8. A tick whose fetch is rejected leaves the deque exactly as it was. A tick
  whose fetch resolves to the empty array appends nothing: the deque afterwards is the
  deque after one run of the window maintainer on the old deque, a suffix of the old one.
\<close>

theorem tick_without_new_candles:
  "((\<forall>req. f req = Rejected) \<longrightarrow>
       deque (snd (startWatchingForNewOHLCV p f now)) = deque p)
   \<and> ((\<forall>req. f req = Resolved []) \<longrightarrow>
       deque (snd (startWatchingForNewOHLCV p f now)) = deque (snd (removeOldCandles p now))
       \<and> (\<exists>old. deque p = old @ deque (snd (startWatchingForNewOHLCV p f now))))"
proof (intro conjI impI)
  assume "\<forall>req. f req = Rejected"
  then show "deque (snd (startWatchingForNewOHLCV p f now)) = deque p"
    by (simp add: startWatchingForNewOHLCV_def split: sum.splits)
next
  assume empty: "\<forall>req. f req = Resolved []"
  show tick: "deque (snd (startWatchingForNewOHLCV p f now)) = deque (snd (removeOldCandles p now))"
  proof (cases "deque p")
    case Nil
    then show ?thesis
      by (simp add: startWatchingForNewOHLCV_def elem0_def deque_back_def removeOldCandles_deque)
  next
    case (Cons c cs)
    then have "elem0 (deque_back (deque p)) = Inr (timestamp (last (deque p)))"
      by (simp add: elem0_def deque_back_def)
    with empty show ?thesis
      by (simp add: startWatchingForNewOHLCV_def split: prod.splits sum.splits)
  qed
  have "deque p = takeWhile (\<lambda>c. timestamp c < getTimestampForDaysAgo now (days p)) (deque p)
                  @ deque (snd (removeOldCandles p now))"
    by (simp add: removeOldCandles_deque)
  with tick show "\<exists>old. deque p = old @ deque (snd (startWatchingForNewOHLCV p f now))"
    by metis
qed

theorem tick_without_new_candles_witness:
  "deque (snd (startWatchingForNewOHLCV
                 ((fresh 1)\<lparr>deque := [candle_at 0, candle_at 172800000], isReady := True\<rparr>)
                 (\<lambda>req. Rejected) 172800000))
     = [candle_at 0, candle_at 172800000]
   \<and> deque (snd (startWatchingForNewOHLCV
                 ((fresh 1)\<lparr>deque := [candle_at 0, candle_at 172800000], isReady := True\<rparr>)
                 (\<lambda>req. Resolved []) 172800000))
     = [candle_at 172800000]"
  using tick_without_new_candles
    [of "\<lambda>req. Rejected"
        "(fresh 1)\<lparr>deque := [candle_at 0, candle_at 172800000], isReady := True\<rparr>" 172800000]
    tick_without_new_candles
    [of "\<lambda>req. Resolved []"
        "(fresh 1)\<lparr>deque := [candle_at 0, candle_at 172800000], isReady := True\<rparr>" 172800000]
  by (simp add: removeOldCandles_deque getTimestampForDaysAgo_def fresh_def candle_at_def)

section \<open>The read accessors\<close>

text \<open>
  Claim C6, as amended. \<^verbatim>\<open>getFirst()\<close> and \<^verbatim>\<open>getLast()\<close> hand back what the deque's
  \<^verbatim>\<open>front()\<close> and \<^verbatim>\<open>back()\<close> return and never raise: on an empty buffer the value is
  \<^verbatim>\<open>undefined\<close>, on a non-empty buffer it is the oldest and the newest candle.
\<close>

theorem accessors_never_raise:
  "(deque p = [] \<longrightarrow> getFirst p = Inr None \<and> getLast p = Inr None)
   \<and> (deque p \<noteq> [] \<longrightarrow>
        getFirst p = Inr (Some (hd (deque p))) \<and> getLast p = Inr (Some (last (deque p))))"
  by (cases "deque p") (simp_all add: getFirst_def getLast_def front_def deque_back_def)

theorem accessors_never_raise_witness:
  "getFirst (fresh 7) = Inr None \<and> getLast (fresh 7) = Inr None
   \<and> getFirst ((fresh 7)\<lparr>deque := [candle_at 0, candle_at 60000]\<rparr>) = Inr (Some (candle_at 0))
   \<and> getLast ((fresh 7)\<lparr>deque := [candle_at 0, candle_at 60000]\<rparr>)
       = Inr (Some (candle_at 60000))"
  using accessors_never_raise [of "fresh 7"]
    accessors_never_raise [of "(fresh 7)\<lparr>deque := [candle_at 0, candle_at 60000]\<rparr>"]
  by (simp add: fresh_def)

text \<open>
  The provider as it leaves the constructor has an empty buffer; both accessors return
  \<^verbatim>\<open>undefined\<close> to the caller instead of failing.
\<close>

theorem accessors_empty_counterexample:
  "getFirst (obj (projr (constructor ''BTC/USDT'' ''1m'' 7 10000 1000 0))) = Inr None
   \<and> getLast (obj (projr (constructor ''BTC/USDT'' ''1m'' 7 10000 1000 0))) = Inr None"
  by (simp add: constructor_fresh getFirst_def getLast_def front_def deque_back_def fresh_def)

section \<open>The backfill engine\<close>

text \<open>
  Claim C1 gives the width check as: front timestamp minus back timestamp equals
  \<open>- days * 86400000\<close>. The code on line 82 compares the front timestamp with the back
  timestamp \<^emph>\<open>plus\<close> \<open>days * 86400000\<close>. With \<open>days = 1\<close> and a first chunk of two candles
  at 0 and 86400000 the difference is exactly \<open>-86400000\<close>, yet the pass does not leave the
  loop, and the loop issues a second fetch.
\<close>

theorem backfill_width_check_sign:
  "timestamp (candle_at 0) - timestamp (candle_at 86400000)
     = - (days (fresh 1) * 24 * 60 * 60 * 1000)
   \<and> loadInitialData_try (fresh 1)
         (\<lambda>req. Resolved [candle_at 0, candle_at 86400000]) (Some 0) []
       = (False, Some 86460000, [candle_at 0, candle_at 86400000])
   \<and> loadInitialData_loop (fresh 1)
         (\<lambda>k req. if k = 0 then Resolved [candle_at 0, candle_at 86400000] else Resolved [])
         0 (Some 0) []
       = (2, [candle_at 0, candle_at 86400000])"
proof -
  have body: "loadInitialData_try (fresh 1)
         (\<lambda>req. Resolved [candle_at 0, candle_at 86400000]) (Some 0) []
       = (False, Some 86460000, [candle_at 0, candle_at 86400000])"
    by (simp add: eval_simps)
  have second: "loadInitialData_loop (fresh 1)
         (\<lambda>k req. if k = 0 then Resolved [candle_at 0, candle_at 86400000] else Resolved [])
         (Suc 0) (Some 86460000) [candle_at 0, candle_at 86400000]
       = (2, [candle_at 0, candle_at 86400000])"
    by (subst loadInitialData_loop.simps) (simp add: try_cases)
  have "loadInitialData_loop (fresh 1)
         (\<lambda>k req. if k = 0 then Resolved [candle_at 0, candle_at 86400000] else Resolved [])
         0 (Some 0) []
       = (2, [candle_at 0, candle_at 86400000])"
    by (subst loadInitialData_loop.simps) (simp add: body second)
  with body show ?thesis by (simp add: fresh_def candle_at_def)
qed

text \<open>
  Claim C4 says that a fetch failure never keeps the provider from becoming ready. When
  the first fetch of the backfill is rejected the deque is still empty; the window
  maintainer then throws, \<^verbatim>\<open>#loadInitialData\<close> ends with the \<^verbatim>\<open>TypeError\<close> after one fetch,
  \<^verbatim>\<open>#isReady\<close> is never set, and no later event changes the provider.
\<close>

theorem backfill_rejected_first_fetch:
  "loadInitialData (fresh d) (\<lambda>k req. Rejected) now0 now1 = (Inl TypeError, fresh d, 1)
   \<and> run \<lparr>obj = fresh d, act = Loading n, pending = []\<rparr>
         (BackfillFetch (\<lambda>req. Rejected) now1 # evs)
       = \<lparr>obj = fresh d, act = StartRejected TypeError, pending = []\<rparr>
   \<and> \<not> isDataAvailable (fresh d)"
proof -
  have loop: "loadInitialData_loop (fresh d) (\<lambda>k req. Rejected) 0 n [] = (1, [])" for n
    by (subst loadInitialData_loop.simps) (simp add: try_cases)
  have empty: "deque (fresh d) = []" and idle: "\<not> isReady (fresh d)"
    by (simp_all add: fresh_def)
  have fin: "loadInitialData_finish (fresh d) now1 = (Inl TypeError, fresh d)"
    using empty by (simp add: loadInitialData_finish_eq)
  have same: "(fresh d)\<lparr>deque := []\<rparr> = fresh d"
    by (simp add: fresh_def)
  have whole: "loadInitialData (fresh d) (\<lambda>k req. Rejected) now0 now1 = (Inl TypeError, fresh d, 1)"
    by (simp add: loadInitialData_def Let_def empty loop same fin)
  have first: "step \<lparr>obj = fresh d, act = Loading n, pending = []\<rparr>
                 (BackfillFetch (\<lambda>req. Rejected) now1)
                 = \<lparr>obj = fresh d, act = StartRejected TypeError, pending = []\<rparr>"
    by (simp add: try_cases after_loop_def empty same fin)
  have "run \<lparr>obj = fresh d, act = Loading n, pending = []\<rparr>
          (BackfillFetch (\<lambda>req. Rejected) now1 # evs)
          = run \<lparr>obj = fresh d, act = StartRejected TypeError, pending = []\<rparr> evs"
    by (simp only: run.simps first)
  also have "\<dots> = \<lparr>obj = fresh d, act = StartRejected TypeError, pending = []\<rparr>"
    by (rule rejected_start_absorbing) simp_all
  finally show ?thesis using whole idle by (simp add: isDataAvailable_def)
qed

section \<open>Readiness\<close>

text \<open>
  Claim C2, as amended. In every state the provider reaches after construction, with
  watcher ticks overlapping or not: \<^verbatim>\<open>isDataAvailable()\<close> is false while the backfill loop
  is still waiting for a fetch; it is true once \<^verbatim>\<open>#loadInitialData\<close> has returned; from a
  state where it is true, the only step that makes it false is a watcher tick that ends in
  its \<^verbatim>\<open>catch\<close> block (when the tick starts and the argument of the fetch throws, or when
  its fetch settles); and every tick that ends in its \<^verbatim>\<open>catch\<close> block does make it false,
  whether its two halves are separated by other events or run in one piece.
\<close>

theorem readiness_lifecycle:
  assumes "constructor sy tf d u l now = Inr s0" and "s = run s0 evs"
  shows "(\<forall>n. act s = Loading n \<longrightarrow> \<not> isDataAvailable (obj s))
       \<and> (act s = Polling \<longrightarrow> isDataAvailable (obj s))
       \<and> (isDataAvailable (obj s) \<and> \<not> isDataAvailable (obj (step s e)) \<longrightarrow>
            (e = WatcherTimer \<and> (\<exists>err. tick_request (obj s) = Inl err))
            \<or> (\<exists>i f t err. e = TickSettled i f t \<and> i < length (pending s)
                   \<and> fst (tick_settle (obj s) (f (pending s ! i)) t) = Some err))
       \<and> (act s = Monitoring \<and> isDataAvailable (obj s)
              \<and> (\<exists>err. tick_request (obj s) = Inl err)
            \<longrightarrow> \<not> isDataAvailable (obj (step s WatcherTimer)))
       \<and> (i < length (pending s) \<and> fst (tick_settle (obj s) (f (pending s ! i)) t) \<noteq> None
            \<longrightarrow> \<not> isDataAvailable (obj (step s (TickSettled i f t))))
       \<and> (act s = Monitoring \<and> isDataAvailable (obj s)
              \<and> fst (startWatchingForNewOHLCV (obj s) f t) \<noteq> None
            \<longrightarrow> \<not> isDataAvailable
                  (obj (step (step s WatcherTimer) (TickSettled (length (pending s)) f t))))"
proof -
  from assms have inv: "ready_inv s"
    by (simp add: ready_inv_run ready_inv_constructed)
  have loading: "\<forall>n. act s = Loading n \<longrightarrow> \<not> isDataAvailable (obj s)"
    using inv by (auto simp: ready_inv_def isDataAvailable_def)
  have polling: "act s = Polling \<longrightarrow> isDataAvailable (obj s)"
    using inv by (auto simp: ready_inv_def isDataAvailable_def)
  have lost: "isDataAvailable (obj s) \<and> \<not> isDataAvailable (obj (step s e)) \<longrightarrow>
            (e = WatcherTimer \<and> (\<exists>err. tick_request (obj s) = Inl err))
            \<or> (\<exists>i f t err. e = TickSettled i f t \<and> i < length (pending s)
                   \<and> fst (tick_settle (obj s) (f (pending s ! i)) t) = Some err)"
    using ready_lost_only_by_tick [OF inv, of e] by (auto simp: isDataAvailable_def)
  have started: "act s = Monitoring \<and> isDataAvailable (obj s)
              \<and> (\<exists>err. tick_request (obj s) = Inl err)
            \<longrightarrow> \<not> isDataAvailable (obj (step s WatcherTimer))"
    by (auto simp: isDataAvailable_def)
  have settled: "i < length (pending s) \<and> fst (tick_settle (obj s) (f (pending s ! i)) t) \<noteq> None
            \<longrightarrow> \<not> isDataAvailable (obj (step s (TickSettled i f t)))"
    by (simp add: isDataAvailable_def tick_settle_fst)
  have whole: "act s = Monitoring \<and> isDataAvailable (obj s)
              \<and> fst (startWatchingForNewOHLCV (obj s) f t) \<noteq> None
            \<longrightarrow> \<not> isDataAvailable
                  (obj (step (step s WatcherTimer) (TickSettled (length (pending s)) f t)))"
  proof
    assume a: "act s = Monitoring \<and> isDataAvailable (obj s)
                 \<and> fst (startWatchingForNewOHLCV (obj s) f t) \<noteq> None"
    then have "\<not> isReady (watcher_callback (obj s) f t)"
      by (simp add: isDataAvailable_def watcher_callback_def tick_fst)
    moreover from a have "act s = Monitoring" by simp
    then have "obj (step (step s WatcherTimer) (TickSettled (length (pending s)) f t))
                 = watcher_callback (obj s) f t"
      by (rule tick_in_one_piece)
    ultimately show "\<not> isDataAvailable
                  (obj (step (step s WatcherTimer) (TickSettled (length (pending s)) f t)))"
      by (simp add: isDataAvailable_def)
  qed
  from loading polling lost started settled whole show ?thesis by blast
qed

theorem readiness_lifecycle_witness:
  "constructor ''BTC/USDT'' ''1m'' 1 10000 1000 172800000 = Inr \<lparr>obj = fresh 1, act = Loading (Some 86400000), pending = []\<rparr>
   \<and> act (run \<lparr>obj = fresh 1, act = Loading (Some 86400000), pending = []\<rparr>
          [BackfillFetch (\<lambda>req. Resolved [candle_at 86400000, candle_at 86460000]) 172800000])
       = Loading (Some 86520000)
   \<and> \<not> isDataAvailable (obj (run \<lparr>obj = fresh 1, act = Loading (Some 86400000), pending = []\<rparr>
          [BackfillFetch (\<lambda>req. Resolved [candle_at 86400000, candle_at 86460000]) 172800000]))
   \<and> act (run \<lparr>obj = fresh 1, act = Loading (Some 86400000), pending = []\<rparr>
          [BackfillFetch (\<lambda>req. Resolved [candle_at 86400000, candle_at 86460000]) 172800000,
           BackfillFetch (\<lambda>req. Resolved []) 172800500])
       = Polling
   \<and> isDataAvailable (obj (run \<lparr>obj = fresh 1, act = Loading (Some 86400000), pending = []\<rparr>
          [BackfillFetch (\<lambda>req. Resolved [candle_at 86400000, candle_at 86460000]) 172800000,
           BackfillFetch (\<lambda>req. Resolved []) 172800500]))"
proof -
  have c: "constructor ''BTC/USDT'' ''1m'' 1 10000 1000 172800000 = Inr \<lparr>obj = fresh 1, act = Loading (Some 86400000), pending = []\<rparr>"
    by (simp add: constructor_fresh)
  have a1: "act (run \<lparr>obj = fresh 1, act = Loading (Some 86400000), pending = []\<rparr>
          [BackfillFetch (\<lambda>req. Resolved [candle_at 86400000, candle_at 86460000]) 172800000])
       = Loading (Some 86520000)"
    by (simp add: eval_simps)
  have a2: "act (run \<lparr>obj = fresh 1, act = Loading (Some 86400000), pending = []\<rparr>
          [BackfillFetch (\<lambda>req. Resolved [candle_at 86400000, candle_at 86460000]) 172800000,
           BackfillFetch (\<lambda>req. Resolved []) 172800500])
       = Polling"
    by (simp add: eval_simps)
  from c a1 a2
    readiness_lifecycle [OF c refl,
      of "[BackfillFetch (\<lambda>req. Resolved [candle_at 86400000, candle_at 86460000]) 172800000]"]
    readiness_lifecycle [OF c refl,
      of "[BackfillFetch (\<lambda>req. Resolved [candle_at 86400000, candle_at 86460000]) 172800000,
           BackfillFetch (\<lambda>req. Resolved []) 172800500]"]
  show ?thesis by simp
qed

text \<open>
  After a backfill of two chunks and the start of monitoring the provider is ready; one
  tick with a rejected fetch later it is not.
\<close>

theorem readiness_cleared_counterexample:
  "isDataAvailable (obj (run \<lparr>obj = fresh 1, act = Loading (Some 86400000), pending = []\<rparr>
     [BackfillFetch (\<lambda>req. Resolved [candle_at 86400000, candle_at 86460000]) 172800000,
      BackfillFetch (\<lambda>req. Resolved []) 172800500,
      PollTimer]))
   \<and> \<not> isDataAvailable (obj (run \<lparr>obj = fresh 1, act = Loading (Some 86400000), pending = []\<rparr>
     [BackfillFetch (\<lambda>req. Resolved [candle_at 86400000, candle_at 86460000]) 172800000,
      BackfillFetch (\<lambda>req. Resolved []) 172800500,
      PollTimer,
      WatcherTimer,
      TickSettled 0 (\<lambda>req. Rejected) 172810000]))"
  by (simp add: eval_simps isDataAvailable_def)

text \<open>
  Claim C5 says that after a failed tick the next successful tick restores readiness.
  The watcher callback starts a tick only while \<^verbatim>\<open>#isReady\<close> is true, so once a tick has
  cleared the flag and no other tick is in flight, no event changes the provider any more:
  no fetch is issued again and the flag stays false.
\<close>

theorem not_ready_never_recovers:
  "act s = Monitoring \<Longrightarrow> \<not> isReady (obj s) \<Longrightarrow> pending s = [] \<Longrightarrow> run s evs = s"
  by (induction evs) (simp_all add: stuck_step)

theorem not_ready_never_recovers_witness:
  "act (run \<lparr>obj = fresh 1, act = Loading (Some 86400000), pending = []\<rparr>
     [BackfillFetch (\<lambda>req. Resolved [candle_at 86400000, candle_at 86460000]) 172800000,
      BackfillFetch (\<lambda>req. Resolved []) 172800500,
      PollTimer,
      WatcherTimer,
      TickSettled 0 (\<lambda>req. Rejected) 172810000]) = Monitoring
   \<and> \<not> isReady (obj (run \<lparr>obj = fresh 1, act = Loading (Some 86400000), pending = []\<rparr>
     [BackfillFetch (\<lambda>req. Resolved [candle_at 86400000, candle_at 86460000]) 172800000,
      BackfillFetch (\<lambda>req. Resolved []) 172800500,
      PollTimer,
      WatcherTimer,
      TickSettled 0 (\<lambda>req. Rejected) 172810000]))
   \<and> pending (run \<lparr>obj = fresh 1, act = Loading (Some 86400000), pending = []\<rparr>
     [BackfillFetch (\<lambda>req. Resolved [candle_at 86400000, candle_at 86460000]) 172800000,
      BackfillFetch (\<lambda>req. Resolved []) 172800500,
      PollTimer,
      WatcherTimer,
      TickSettled 0 (\<lambda>req. Rejected) 172810000]) = []
   \<and> \<not> isReady (obj (run (run \<lparr>obj = fresh 1, act = Loading (Some 86400000), pending = []\<rparr>
     [BackfillFetch (\<lambda>req. Resolved [candle_at 86400000, candle_at 86460000]) 172800000,
      BackfillFetch (\<lambda>req. Resolved []) 172800500,
      PollTimer,
      WatcherTimer,
      TickSettled 0 (\<lambda>req. Rejected) 172810000])
     [WatcherTimer, TickSettled 0 (\<lambda>req. Resolved [candle_at 86520000]) 172820000]))"
proof -
  have a: "act (run \<lparr>obj = fresh 1, act = Loading (Some 86400000), pending = []\<rparr>
     [BackfillFetch (\<lambda>req. Resolved [candle_at 86400000, candle_at 86460000]) 172800000,
      BackfillFetch (\<lambda>req. Resolved []) 172800500,
      PollTimer,
      WatcherTimer,
      TickSettled 0 (\<lambda>req. Rejected) 172810000]) = Monitoring"
    by (simp add: eval_simps)
  have r: "\<not> isReady (obj (run \<lparr>obj = fresh 1, act = Loading (Some 86400000), pending = []\<rparr>
     [BackfillFetch (\<lambda>req. Resolved [candle_at 86400000, candle_at 86460000]) 172800000,
      BackfillFetch (\<lambda>req. Resolved []) 172800500,
      PollTimer,
      WatcherTimer,
      TickSettled 0 (\<lambda>req. Rejected) 172810000]))"
    by (simp add: eval_simps)
  have q: "pending (run \<lparr>obj = fresh 1, act = Loading (Some 86400000), pending = []\<rparr>
     [BackfillFetch (\<lambda>req. Resolved [candle_at 86400000, candle_at 86460000]) 172800000,
      BackfillFetch (\<lambda>req. Resolved []) 172800500,
      PollTimer,
      WatcherTimer,
      TickSettled 0 (\<lambda>req. Rejected) 172810000]) = []"
    by (simp add: eval_simps)
  have same: "run (run \<lparr>obj = fresh 1, act = Loading (Some 86400000), pending = []\<rparr>
     [BackfillFetch (\<lambda>req. Resolved [candle_at 86400000, candle_at 86460000]) 172800000,
      BackfillFetch (\<lambda>req. Resolved []) 172800500,
      PollTimer,
      WatcherTimer,
      TickSettled 0 (\<lambda>req. Rejected) 172810000])
     [WatcherTimer, TickSettled 0 (\<lambda>req. Resolved [candle_at 86520000]) 172820000]
     = run \<lparr>obj = fresh 1, act = Loading (Some 86400000), pending = []\<rparr>
     [BackfillFetch (\<lambda>req. Resolved [candle_at 86400000, candle_at 86460000]) 172800000,
      BackfillFetch (\<lambda>req. Resolved []) 172800500,
      PollTimer,
      WatcherTimer,
      TickSettled 0 (\<lambda>req. Rejected) 172810000]"
    using a r q by (rule not_ready_never_recovers)
  have after: "\<not> isReady (obj (run (run \<lparr>obj = fresh 1, act = Loading (Some 86400000), pending = []\<rparr>
     [BackfillFetch (\<lambda>req. Resolved [candle_at 86400000, candle_at 86460000]) 172800000,
      BackfillFetch (\<lambda>req. Resolved []) 172800500,
      PollTimer,
      WatcherTimer,
      TickSettled 0 (\<lambda>req. Rejected) 172810000])
     [WatcherTimer, TickSettled 0 (\<lambda>req. Resolved [candle_at 86520000]) 172820000]))"
    by (subst same) (rule r)
  from a r q after show ?thesis by blast
qed

section \<open>Ordering of the buffer\<close>




end
